theory Spec2Isabelle
  imports Main
begin

section \<open>Data of \<^verbatim>\<open>authentication.ts\<close>\<close>

text \<open>
  A JavaScript \<^verbatim>\<open>number\<close> is a double. The only numbers the file makes are the values of
  \<^verbatim>\<open>Number\<close> on a run of decimal digits, and such a value is an integer that is not
  negative or it is \<^verbatim>\<open>Infinity\<close>: these are the values of the type \<open>number\<close>.
\<close>

datatype number = Finite int | Infinity

text \<open>
  The interface \<^verbatim>\<open>Credentials\<close>. An optional field is an \<open>option\<close>, \<open>None\<close> standing for
  \<^verbatim>\<open>undefined\<close>.
\<close>

record Credentials =
  port :: number
  password :: string
  pid :: number
  certificate :: "string option"

text \<open>
  The interface \<^verbatim>\<open>AuthenticationOptions\<close>: every field is optional. The poll interval is
  the number of milliseconds handed to \<^verbatim>\<open>setTimeout\<close>.
\<close>

record AuthenticationOptions =
  awaitConnection :: "bool option"
  pollInterval :: "int option"
  certificate :: "string option"
  unsafe :: "bool option"

text \<open>The two error classes of the file.\<close>

datatype error = InvalidPlatformError | ClientNotFoundError

text \<open>The state of a promise.\<close>

datatype 'a promise = Pending | Fulfilled 'a | Rejected error

text \<open>
  What the host answers during one attempt: \<open>exec\<close> gives the standard output of a
  command (\<open>None\<close> when the promisified \<^verbatim>\<open>cp.exec\<close> rejects, as it does on a non-zero exit
  status), \<open>readFile\<close> the text of \<^verbatim>\<open>riotgames.pem\<close> (\<open>None\<close> when \<^verbatim>\<open>fs.readFile\<close> rejects).
\<close>

record env =
  exec :: "string \<Rightarrow> string option"
  readFile :: "string option"

text \<open>The effects a call performs, in the order it performs them.\<close>

datatype event = Exec string | ReadFile | SetTimeout int

definition DEFAULT_POLL_INTERVAL :: int where
  "DEFAULT_POLL_INTERVAL = 2500"

section \<open>The three regular expressions\<close>

text \<open>
  Each of the three expressions is a literal marker followed by one capture group
  \<^verbatim>\<open>([class]+)\<close>, so an expression is the pair of its marker and its character class.
  \<^verbatim>\<open>[0-9]\<close> is \<open>digit\<close>. \<^verbatim>\<open>[\w-_]\<close>, in an expression without the \<^verbatim>\<open>u\<close> flag, is the
  union of \<^verbatim>\<open>\w\<close>, the hyphen and the underscore.
\<close>

type_synonym regex = "string \<times> (char \<Rightarrow> bool)"

definition digit :: "char \<Rightarrow> bool" where
  "digit c = (c \<in> set ''0123456789'')"

definition word_or_hyphen :: "char \<Rightarrow> bool" where
  "word_or_hyphen c =
     (c \<in> set ''abcdefghijklmnopqrstuvwxyzABCDEFGHIJKLMNOPQRSTUVWXYZ0123456789_-'')"

definition portRegex :: regex where
  "portRegex = (''--app-port='', digit)"

definition passwordRegex :: regex where
  "passwordRegex = (''--remoting-auth-token='', word_or_hyphen)"

definition pidRegex :: regex where
  "pidRegex = (''--app-pid='', digit)"

fun starts_with :: "string \<Rightarrow> string \<Rightarrow> bool" where
  "starts_with [] s = True"
| "starts_with (m # ms) [] = False"
| "starts_with (m # ms) (c # cs) = (m = c \<and> starts_with ms cs)"

text \<open>
  A match that starts at the head of \<open>s\<close>: the marker, then the longest non-empty run of
  characters of the class (the group is greedy and nothing follows it). The result is
  the text of the capture group.
\<close>

definition match_here :: "regex \<Rightarrow> string \<Rightarrow> string option" where
  "match_here re s =
     (if starts_with (fst re) s
      then (let cap = takeWhile (snd re) (drop (length (fst re)) s)
            in if cap = [] then None else Some cap)
      else None)"

text \<open>
  \<^verbatim>\<open>s.match(re)\<close> for an expression without the \<^verbatim>\<open>g\<close> flag: the match at the leftmost
  position that has one, \<open>None\<close> for \<^verbatim>\<open>null\<close>.
\<close>

fun str_match :: "string \<Rightarrow> regex \<Rightarrow> string option" where
  "str_match [] re = match_here re []"
| "str_match (c # cs) re =
     (case match_here re (c # cs) of
        Some cap \<Rightarrow> Some cap
      | None \<Rightarrow> str_match cs re)"

text \<open>
  \<^verbatim>\<open>Number\<close> on a run of decimal digits: the double nearest to the run's value in base 10,
  a tie going to the double whose significand is even, and \<^verbatim>\<open>Infinity\<close> when that rounding
  reaches \<open>2 ^ 1024\<close>. A value below \<open>2 ^ 53\<close> is a double itself. A value \<open>m\<close> of
  \<open>bit_length m\<close> bits, more than 53, lies between two neighbouring multiples of
  \<open>2 ^ (bit_length m - 53)\<close>, which are the doubles around it. (ECMAScript lets an engine
  approximate a literal of more than 20 significant digits; Node rounds it correctly, as
  here.)
\<close>

definition decimal :: "string \<Rightarrow> nat" where
  "decimal ds = foldl (\<lambda>n c. 10 * n + (of_char c - 48)) 0 ds"

fun bit_length :: "nat \<Rightarrow> nat" where
  "bit_length n = (if n = 0 then 0 else Suc (bit_length (n div 2)))"

definition round_to_multiple :: "nat \<Rightarrow> nat \<Rightarrow> nat" where
  "round_to_multiple e m =
     (let q = m div 2 ^ e;
          r = m mod 2 ^ e;
          half = 2 ^ (e - 1)
      in (if half < r \<or> (r = half \<and> odd q) then q + 1 else q) * 2 ^ e)"

definition nearest_double :: "nat \<Rightarrow> number" where
  "nearest_double m =
     (if m < 2 ^ 53 then Finite (int m)
      else (let v = round_to_multiple (bit_length m - 53) m
            in if 2 ^ 1024 \<le> v then Infinity else Finite (int v)))"

definition Number :: "string \<Rightarrow> number" where
  "Number ds = nearest_double (decimal ds)"

section \<open>One attempt\<close>

text \<open>Optional chaining \<^verbatim>\<open>options?.field\<close>.\<close>

definition opt :: "('a \<Rightarrow> 'b option) \<Rightarrow> 'a option \<Rightarrow> 'b option" where
  "opt field options = (case options of None \<Rightarrow> None | Some v \<Rightarrow> field v)"

text \<open>The command of line 96: \<^verbatim>\<open>WMIC\<close> on \<^verbatim>\<open>win32\<close>, \<^verbatim>\<open>ps\<close> everywhere else.\<close>

definition command :: "string \<Rightarrow> string" where
  "command platform =
     (if platform = ''win32''
      then ''WMIC PROCESS WHERE name='LeagueClientUx.exe' GET CommandLine''
      else ''ps x -o args | grep 'LeagueClientUx'' @ [CHR 0x27])"

text \<open>
  The value of the \<^verbatim>\<open>certificate\<close> property of the returned object (lines 106 and 112 to
  114): \<^verbatim>\<open>options?.certificate || (unsafe ? undefined : await fs.readFile(...))\<close>, where
  \<^verbatim>\<open>unsafe\<close> is \<^verbatim>\<open>options?.unsafe || typeof options?.unsafe === 'undefined'\<close>. A string is
  truthy when it is not empty. \<open>Inl\<close> is the rejection of \<^verbatim>\<open>readFile\<close>; the second component
  tells whether the file was read.
\<close>

definition certificate_value ::
  "AuthenticationOptions option \<Rightarrow> env \<Rightarrow> (unit + string option) \<times> event list" where
  "certificate_value options e =
     (let unsafe' = (case opt unsafe options of None \<Rightarrow> True | Some b \<Rightarrow> b)
      in case opt AuthenticationOptions.certificate options of
           Some (c # cs) \<Rightarrow> (Inr (Some (c # cs)), [])
         | _ \<Rightarrow>
           (if unsafe' then (Inr None, [])
            else (case readFile e of
                    None \<Rightarrow> (Inl (), [ReadFile])
                  | Some pem \<Rightarrow> (Inr (Some pem), [ReadFile]))))"

text \<open>
  \<^verbatim>\<open>tryAuthenticate\<close>. Everything from \<^verbatim>\<open>exec\<close> to the \<^verbatim>\<open>return\<close> stands in one
  \<^verbatim>\<open>try\<close> block whose \<^verbatim>\<open>catch\<close> throws \<^verbatim>\<open>ClientNotFoundError\<close>: a rejected \<^verbatim>\<open>exec\<close>, the
  destructuring of a \<^verbatim>\<open>null\<close> match and a rejected \<^verbatim>\<open>readFile\<close> all end there. The
  second component lists the effects performed.
\<close>

definition tryAuthenticate ::
  "string \<Rightarrow> AuthenticationOptions option \<Rightarrow> env \<Rightarrow> (error + Credentials) \<times> event list" where
  "tryAuthenticate platform options e =
     (case exec e (command platform) of
        None \<Rightarrow> (Inl ClientNotFoundError, [Exec (command platform)])
      | Some stdout \<Rightarrow>
     (case str_match stdout portRegex of
        None \<Rightarrow> (Inl ClientNotFoundError, [Exec (command platform)])
      | Some port' \<Rightarrow>
     (case str_match stdout passwordRegex of
        None \<Rightarrow> (Inl ClientNotFoundError, [Exec (command platform)])
      | Some password' \<Rightarrow>
     (case str_match stdout pidRegex of
        None \<Rightarrow> (Inl ClientNotFoundError, [Exec (command platform)])
      | Some pid' \<Rightarrow>
     (case certificate_value options e of
        (Inl _, evs) \<Rightarrow> (Inl ClientNotFoundError, Exec (command platform) # evs)
      | (Inr cert, evs) \<Rightarrow>
          (Inr \<lparr>port = Number port', password = password', pid = Number pid',
                Credentials.certificate = cert\<rparr>,
           Exec (command platform) # evs))))))"

section \<open>The call\<close>

text \<open>
  The function \<^verbatim>\<open>self\<close> of the polling promise. The host is a sequence of answers, one
  per attempt; the last argument numbers the attempt. The loop has no bound, so the
  model observes it for a number of attempts (the first argument): the promise is
  \<open>Pending\<close> while every observed attempt has failed. A failed attempt is followed by
  \<^verbatim>\<open>setTimeout(self, options?.pollInterval ?? DEFAULT_POLL_INTERVAL, resolve, reject)\<close>.
\<close>

definition interval :: "AuthenticationOptions option \<Rightarrow> int" where
  "interval options =
     (case opt pollInterval options of None \<Rightarrow> DEFAULT_POLL_INTERVAL | Some ms \<Rightarrow> ms)"

fun self ::
  "nat \<Rightarrow> string \<Rightarrow> AuthenticationOptions option \<Rightarrow> (nat \<Rightarrow> env) \<Rightarrow> nat
     \<Rightarrow> Credentials promise \<times> event list" where
  "self 0 platform options host i = (Pending, [])"
| "self (Suc n) platform options host i =
     (case tryAuthenticate platform options (host i) of
        (Inr result, evs) \<Rightarrow> (Fulfilled result, evs)
      | (Inl _, evs) \<Rightarrow>
          (case self n platform options host (Suc i) of
             (p, later) \<Rightarrow> (p, evs @ SetTimeout (interval options) # later)))"

text \<open>
  \<^verbatim>\<open>authenticate\<close>: the platform test of line 122 first, then the polling promise when
  \<^verbatim>\<open>options?.awaitConnection\<close> is truthy, one attempt otherwise. The result is the state
  of the returned promise and the effects performed, once the polling loop has been
  observed for \<open>n\<close> attempts; \<open>n\<close> plays no part outside await mode.
\<close>

definition supported :: "string list" where
  "supported = [''win32'', ''linux'', ''darwin'']"

definition authenticate ::
  "nat \<Rightarrow> string \<Rightarrow> AuthenticationOptions option \<Rightarrow> (nat \<Rightarrow> env)
     \<Rightarrow> Credentials promise \<times> event list" where
  "authenticate n platform options host =
     (if platform \<notin> set supported then (Rejected InvalidPlatformError, [])
      else if opt awaitConnection options = Some True then self n platform options host 0
      else (case tryAuthenticate platform options (host 0) of
              (Inr result, evs) \<Rightarrow> (Fulfilled result, evs)
            | (Inl err, evs) \<Rightarrow> (Rejected err, evs)))"

section \<open>Notions the properties are stated with\<close>

text \<open>An attempt is one execution of the listing command.\<close>

fun is_exec :: "event \<Rightarrow> bool" where
  "is_exec (Exec c) = True"
| "is_exec ReadFile = False"
| "is_exec (SetTimeout ms) = False"

definition attempts :: "event list \<Rightarrow> nat" where
  "attempts evs = length (filter is_exec evs)"

fun is_timeout :: "event \<Rightarrow> bool" where
  "is_timeout (SetTimeout ms) = True"
| "is_timeout (Exec c) = False"
| "is_timeout ReadFile = False"

definition attempt_fails :: "string \<Rightarrow> AuthenticationOptions option \<Rightarrow> env \<Rightarrow> bool" where
  "attempt_fails platform options e = isl (fst (tryAuthenticate platform options e))"

text \<open>
  The effects of the attempts \<open>i, ..., i + k - 1\<close> when all of them fail: each attempt
  followed by its \<^verbatim>\<open>setTimeout\<close>.
\<close>

fun failed_attempts ::
  "nat \<Rightarrow> string \<Rightarrow> AuthenticationOptions option \<Rightarrow> (nat \<Rightarrow> env) \<Rightarrow> nat \<Rightarrow> event list" where
  "failed_attempts 0 platform options host i = []"
| "failed_attempts (Suc k) platform options host i =
     snd (tryAuthenticate platform options (host i)) @
     SetTimeout (interval options) # failed_attempts k platform options host (Suc i)"

text \<open>A number that is a positive integer, and a number that is not negative.\<close>

definition positive_integer :: "number \<Rightarrow> bool" where
  "positive_integer x = (case x of Finite m \<Rightarrow> 0 < m | Infinity \<Rightarrow> False)"

definition not_negative :: "number \<Rightarrow> bool" where
  "not_negative x = (case x of Finite m \<Rightarrow> 0 \<le> m | Infinity \<Rightarrow> True)"

text \<open>No match of the expression starts inside \<open>pre\<close>, in the text \<open>pre @ s\<close>.\<close>

fun no_match_before :: "regex \<Rightarrow> string \<Rightarrow> string \<Rightarrow> bool" where
  "no_match_before re [] s = True"
| "no_match_before re (c # cs) s =
     (match_here re (c # cs @ s) = None \<and> no_match_before re cs s)"

text \<open>
  \<^verbatim>\<open>authenticate\<close> takes no cancellation token, the promise it returns has no operation
  that cancels it, and the handle that \<^verbatim>\<open>setTimeout\<close> returns is dropped: a caller can
  only stop observing. The events that follow a caller's abandoning the call once \<open>k\<close>
  attempts have been made are therefore the events of the run itself beyond those of
  its first \<open>k\<close> attempts (here up to its \<open>n\<close>-th attempt).
\<close>

definition events_after_abandon ::
  "nat \<Rightarrow> nat \<Rightarrow> string \<Rightarrow> AuthenticationOptions option \<Rightarrow> (nat \<Rightarrow> env) \<Rightarrow> event list" where
  "events_after_abandon k n platform options host =
     drop (length (snd (authenticate k platform options host)))
          (snd (authenticate n platform options host))"

section \<open>Concrete hosts and options\<close>

definition listing :: string where
  "listing = ''--app-port=56789 --remoting-auth-token=abc-123 --app-pid=4321''"

definition pem_text :: string where
  "pem_text = ''-----BEGIN CERTIFICATE-----''"

definition env_client :: env where
  "env_client = \<lparr>exec = (\<lambda>cmd. Some listing), readFile = Some pem_text\<rparr>"

definition env_absent :: env where
  "env_absent = \<lparr>exec = (\<lambda>cmd. None), readFile = Some pem_text\<rparr>"

definition env_no_pem :: env where
  "env_no_pem = \<lparr>exec = (\<lambda>cmd. Some listing), readFile = None\<rparr>"

definition env_empty_pem :: env where
  "env_empty_pem = \<lparr>exec = (\<lambda>cmd. Some listing), readFile = Some []\<rparr>"

definition listing_two_clients :: string where
  "listing_two_clients = ''--app-port=1 '' @ listing"

definition env_two_clients :: env where
  "env_two_clients = \<lparr>exec = (\<lambda>cmd. Some listing_two_clients), readFile = Some pem_text\<rparr>"

definition listing_zero :: string where
  "listing_zero = ''--app-port=0 --remoting-auth-token=a --app-pid=0''"

definition env_zero :: env where
  "env_zero = \<lparr>exec = (\<lambda>cmd. Some listing_zero), readFile = Some pem_text\<rparr>"

definition zero_credentials :: Credentials where
  "zero_credentials =
     \<lparr>port = Finite 0, password = ''a'', pid = Finite 0, Credentials.certificate = None\<rparr>"

definition listing_no_pid :: string where
  "listing_no_pid = ''--app-port=56789 --remoting-auth-token=abc-123''"

definition env_no_pid :: env where
  "env_no_pid = \<lparr>exec = (\<lambda>cmd. Some listing_no_pid), readFile = Some pem_text\<rparr>"

definition listing_longer_pid :: string where
  "listing_longer_pid = listing @ ''0''"

definition env_longer_pid :: env where
  "env_longer_pid = \<lparr>exec = (\<lambda>cmd. Some listing_longer_pid), readFile = Some pem_text\<rparr>"

definition env_command_line :: env where
  "env_command_line =
     \<lparr>exec = (\<lambda>cmd. Some (''LeagueClientUx '' @ listing @ '' --no-rads'')),
      readFile = Some pem_text\<rparr>"

definition no_options :: AuthenticationOptions where
  "no_options = \<lparr>awaitConnection = None, pollInterval = None,
                  AuthenticationOptions.certificate = None, unsafe = None\<rparr>"

definition safe_options :: AuthenticationOptions where
  "safe_options = no_options\<lparr>unsafe := Some False\<rparr>"

definition await_options :: AuthenticationOptions where
  "await_options = no_options\<lparr>awaitConnection := Some True\<rparr>"

definition safe_await_options :: AuthenticationOptions where
  "safe_await_options = no_options\<lparr>awaitConnection := Some True, unsafe := Some False\<rparr>"

definition empty_override_options :: AuthenticationOptions where
  "empty_override_options =
     no_options\<lparr>AuthenticationOptions.certificate := Some [], unsafe := Some False\<rparr>"

definition client_credentials :: "string option \<Rightarrow> Credentials" where
  "client_credentials cert =
     \<lparr>port = Finite 56789, password = ''abc-123'', pid = Finite 4321,
      Credentials.certificate = cert\<rparr>"

text \<open>Hosts: the answers attempt by attempt.\<close>

definition host_client :: "nat \<Rightarrow> env" where
  "host_client i = env_client"

definition host_absent :: "nat \<Rightarrow> env" where
  "host_absent i = env_absent"

definition host_zero :: "nat \<Rightarrow> env" where
  "host_zero i = env_zero"

definition host_third :: "nat \<Rightarrow> env" where
  "host_third i = (if i < 2 then env_absent else env_client)"

definition host_no_pem :: "nat \<Rightarrow> env" where
  "host_no_pem i = env_no_pem"

definition host_pem_later :: "nat \<Rightarrow> env" where
  "host_pem_later i = (if i = 0 then env_no_pem else env_client)"

section \<open>Properties\<close>

subsection \<open>Facts about one attempt and about the loop\<close>

lemmas regex_eval = portRegex_def passwordRegex_def pidRegex_def match_here_def
  digit_def word_or_hyphen_def Number_def decimal_def nearest_double_def
lemmas attempt_eval = tryAuthenticate_def certificate_value_def opt_def regex_eval

lemma self_Fulfilled:
  "fst (self n platform options host i) = Fulfilled c \<Longrightarrow>
     \<exists>j. fst (tryAuthenticate platform options (host j)) = Inr c"
proof (induction n arbitrary: i)
  case 0
  then show ?case by simp
next
  case (Suc n)
  show ?case
  proof (cases "fst (tryAuthenticate platform options (host i))")
    case (Inl err)
    with Suc.prems have "fst (self n platform options host (Suc i)) = Fulfilled c"
      by (auto split: prod.splits sum.splits)
    then show ?thesis by (rule Suc.IH)
  next
    case (Inr r)
    with Suc.prems have "r = c" by (auto split: prod.splits sum.splits)
    with Inr show ?thesis by blast
  qed
qed

lemma authenticate_Fulfilled:
  "fst (authenticate n platform options host) = Fulfilled c \<Longrightarrow>
     \<exists>j. fst (tryAuthenticate platform options (host j)) = Inr c"
proof (cases "platform \<in> set supported \<and> opt awaitConnection options \<noteq> Some True")
  case True
  assume "fst (authenticate n platform options host) = Fulfilled c"
  with True have "fst (tryAuthenticate platform options (host 0)) = Inr c"
    by (auto simp: authenticate_def split: prod.splits sum.splits)
  then show ?thesis by blast
next
  case False
  assume "fst (authenticate n platform options host) = Fulfilled c"
  with False have "fst (self n platform options host 0) = Fulfilled c"
    by (auto simp: authenticate_def split: if_splits)
  then show ?thesis by (rule self_Fulfilled)
qed

lemma tryAuthenticate_error:
  "fst (tryAuthenticate platform options e) = Inl err \<Longrightarrow> err = ClientNotFoundError"
  by (auto simp: tryAuthenticate_def split: option.splits prod.splits sum.splits)

lemma certificate_value_events:
  "snd (certificate_value options e) = [] \<or> snd (certificate_value options e) = [ReadFile]"
  by (auto simp: certificate_value_def Let_def split: option.splits list.splits)

lemma tryAuthenticate_events:
  "snd (tryAuthenticate platform options e) = [Exec (command platform)] \<or>
   snd (tryAuthenticate platform options e) = [Exec (command platform), ReadFile]"
  using certificate_value_events [of options e]
  by (auto simp: tryAuthenticate_def split: option.splits prod.splits sum.splits)

lemma attempts_tryAuthenticate:
  "attempts (snd (tryAuthenticate platform options e)) = 1"
  using tryAuthenticate_events [of platform options e] by (auto simp: attempts_def)

lemma no_timeout_tryAuthenticate:
  "filter is_timeout (snd (tryAuthenticate platform options e)) = []"
  using tryAuthenticate_events [of platform options e] by auto

lemma tryAuthenticate_Inr:
  assumes "fst (tryAuthenticate platform options e) = Inr c"
  shows "\<exists>out p t q cert.
           exec e (command platform) = Some out \<and>
           str_match out portRegex = Some p \<and>
           str_match out passwordRegex = Some t \<and>
           str_match out pidRegex = Some q \<and>
           fst (certificate_value options e) = Inr cert \<and>
           c = \<lparr>port = Number p, password = t, pid = Number q, Credentials.certificate = cert\<rparr>"
  using assms
  by (auto simp: tryAuthenticate_def split: option.splits prod.splits sum.splits)

lemma tryAuthenticate_no_match:
  assumes "exec e (command platform) = Some out"
    and "str_match out portRegex = None \<or> str_match out passwordRegex = None
           \<or> str_match out pidRegex = None"
  shows "tryAuthenticate platform options e = (Inl ClientNotFoundError, [Exec (command platform)])"
  using assms
  by (auto simp: tryAuthenticate_def split: option.splits prod.splits sum.splits)

lemma match_here_Some:
  "match_here re s = Some g \<Longrightarrow> g \<noteq> [] \<and> (\<forall>c\<in>set g. snd re c)"
  by (auto simp: match_here_def Let_def split: if_splits dest: set_takeWhileD)

lemma str_match_Some:
  "str_match s re = Some g \<Longrightarrow> g \<noteq> [] \<and> (\<forall>c\<in>set g. snd re c)"
proof (induction s re rule: str_match.induct)
  case (1 re)
  then show ?case using match_here_Some by simp
next
  case (2 c cs re)
  then show ?case using match_here_Some [of re "c # cs" g]
    by (auto split: option.splits)
qed

declare bit_length.simps [simp del]

lemma bit_length_bounds:
  "m \<noteq> 0 \<Longrightarrow> 2 ^ (bit_length m - 1) \<le> m \<and> m < 2 ^ bit_length m"
proof (induction m rule: bit_length.induct)
  case (1 n)
  show ?case
  proof (cases "n div 2 = 0")
    case True
    with "1.prems" have "n = 1" by (simp add: div_eq_0_iff)
    then show ?thesis by (simp add: bit_length.simps)
  next
    case False
    with "1.IH" "1.prems" have IH: "2 ^ (bit_length (n div 2) - 1) \<le> n div 2"
      "n div 2 < 2 ^ bit_length (n div 2)" by simp_all
    have pos: "bit_length (n div 2) \<noteq> 0" using False by (simp add: bit_length.simps)
    have bl: "bit_length n = Suc (bit_length (n div 2))"
      using "1.prems" by (subst bit_length.simps) simp
    from pos obtain k where k: "bit_length (n div 2) = Suc k"
      by (cases "bit_length (n div 2)") auto
    from IH k have "2 ^ k \<le> n div 2" "n div 2 < 2 * 2 ^ k" by simp_all
    then have "2 * 2 ^ k \<le> n" "n < 2 * (2 * 2 ^ k)" by linarith+
    then show ?thesis by (simp add: bl k)
  qed
qed

lemma bit_length_eq:
  assumes "2 ^ k \<le> m" and "m < 2 ^ Suc k"
  shows "bit_length m = Suc k"
proof -
  have "(0::nat) < 2 ^ k" by simp
  with assms(1) have m: "m \<noteq> 0" by linarith
  note b = bit_length_bounds [OF m]
  have "(2::nat) ^ k < 2 ^ bit_length m" using assms(1) b by linarith
  then have 1: "k < bit_length m" by (simp add: power_strict_increasing_iff)
  have "(2::nat) ^ (bit_length m - 1) < 2 ^ Suc k" using assms(2) b by linarith
  then have 2: "bit_length m - 1 < Suc k" by (simp only: power_strict_increasing_iff rel_simps)
  from 1 2 show ?thesis by linarith
qed

lemma round_to_multiple_ge: "m div 2 ^ e * 2 ^ e \<le> round_to_multiple e m"
  by (simp add: round_to_multiple_def Let_def)

lemma nearest_double_overflow:
  assumes "2 ^ 1024 \<le> m"
  shows "nearest_double m = Infinity"
proof -
  define e where "e = bit_length m - 53"
  have "(0::nat) < 2 ^ 1024" by simp
  with assms have m: "m \<noteq> 0" by linarith
  note b = bit_length_bounds [OF m]
  have "(2::nat) ^ 1024 < 2 ^ bit_length m" using assms b by linarith
  then have long: "1024 < bit_length m" by (simp only: power_strict_increasing_iff rel_simps)
  then have split: "bit_length m - 1 = 52 + e" by (simp add: e_def)
  have "(2::nat) ^ 52 * 2 ^ e \<le> m" using b split by (simp add: power_add)
  then have "2 ^ 52 \<le> m div 2 ^ e" by (simp add: less_eq_div_iff_mult_less_eq)
  then have "2 ^ 52 * 2 ^ e \<le> m div 2 ^ e * 2 ^ e" by simp
  moreover have "(2::nat) ^ 1024 \<le> 2 ^ 52 * 2 ^ e"
  proof -
    have "1024 \<le> 52 + e" using long split by linarith
    then have "(2::nat) ^ 1024 \<le> 2 ^ (52 + e)" by (rule power_increasing) simp
    then show ?thesis by (simp only: power_add)
  qed
  ultimately have big: "2 ^ 1024 \<le> round_to_multiple e m"
    using round_to_multiple_ge [of m e] by linarith
  have "(2::nat) ^ 53 \<le> 2 ^ 1024" by (rule power_increasing) simp_all
  with assms have "\<not> m < 2 ^ 53" by linarith
  with big show ?thesis
    unfolding nearest_double_def Let_def e_def by (simp only: if_False if_True)
qed

lemma nearest_double_exact: "m < 2 ^ 53 \<Longrightarrow> nearest_double m = Finite (int m)"
  by (simp add: nearest_double_def)

lemma nearest_double_not_negative: "not_negative (nearest_double m)"
  by (simp add: nearest_double_def not_negative_def Let_def)

lemma Number_rounds_tie_to_even: "Number ''9007199254740993'' = Finite 9007199254740992"
proof -
  have "bit_length 9007199254740993 = Suc 53" by (rule bit_length_eq) simp_all
  then show ?thesis
    by (simp add: Number_def decimal_def nearest_double_def round_to_multiple_def)
qed

lemma certificate_value_override:
  "opt AuthenticationOptions.certificate options = Some (x # xs) \<Longrightarrow>
     certificate_value options e = (Inr (Some (x # xs)), [])"
  by (simp add: certificate_value_def)

lemma certificate_value_no_override:
  "opt AuthenticationOptions.certificate options = None \<or>
   opt AuthenticationOptions.certificate options = Some [] \<Longrightarrow>
     certificate_value options e =
       (if opt unsafe options = Some False
        then (case readFile e of None \<Rightarrow> (Inl (), [ReadFile])
              | Some pem \<Rightarrow> (Inr (Some pem), [ReadFile]))
        else (Inr None, []))"
  by (auto simp: certificate_value_def split: option.splits)

lemma tryAuthenticate_certificate:
  "fst (tryAuthenticate platform options e) = Inr c \<Longrightarrow>
     fst (certificate_value options e) = Inr (Credentials.certificate c)"
  by (auto dest: tryAuthenticate_Inr)

lemma certificate_value_empty_override:
  assumes "AuthenticationOptions.certificate opts = Some []"
  shows "certificate_value (Some opts) e =
           certificate_value (Some (opts\<lparr>AuthenticationOptions.certificate := None\<rparr>)) e"
  using assms by (simp add: certificate_value_def opt_def)

lemmas authenticate_eval = authenticate_def supported_def attempt_eval

lemma attempt_fails_iff:
  "attempt_fails platform options e \<longleftrightarrow>
     (\<exists>evs. tryAuthenticate platform options e = (Inl ClientNotFoundError, evs))"
proof
  assume "attempt_fails platform options e"
  then obtain err where err: "fst (tryAuthenticate platform options e) = Inl err"
    by (auto simp: attempt_fails_def isl_def)
  with tryAuthenticate_error [OF err]
  have "tryAuthenticate platform options e =
          (Inl ClientNotFoundError, snd (tryAuthenticate platform options e))"
    by (simp add: prod_eq_iff)
  then show "\<exists>evs. tryAuthenticate platform options e = (Inl ClientNotFoundError, evs)" ..
next
  assume "\<exists>evs. tryAuthenticate platform options e = (Inl ClientNotFoundError, evs)"
  then show "attempt_fails platform options e" by (auto simp: attempt_fails_def)
qed

lemma self_fail_step:
  assumes "attempt_fails platform options (host i)"
  shows "self (Suc n) platform options host i =
           (fst (self n platform options host (Suc i)),
            snd (tryAuthenticate platform options (host i)) @
            SetTimeout (interval options) # snd (self n platform options host (Suc i)))"
proof -
  from assms obtain evs where
    "tryAuthenticate platform options (host i) = (Inl ClientNotFoundError, evs)"
    by (auto simp: attempt_fails_iff)
  then show ?thesis by (simp split: prod.splits)
qed

lemma self_success_step:
  assumes "tryAuthenticate platform options (host i) = (Inr c, evs)"
  shows "self (Suc n) platform options host i = (Fulfilled c, evs)"
  using assms by simp

lemma attempt_succeeds:
  assumes "\<not> attempt_fails platform options e"
  obtains c evs where "tryAuthenticate platform options e = (Inr c, evs)"
proof -
  obtain r evs where r: "tryAuthenticate platform options e = (r, evs)"
    by (cases "tryAuthenticate platform options e")
  with assms obtain c where "r = Inr c"
    by (cases r) (auto simp: attempt_fails_def)
  with r that show thesis by blast
qed

declare self.simps(2) [simp del]

lemma self_not_Rejected: "fst (self n platform options host i) \<noteq> Rejected err"
proof (induction n arbitrary: i)
  case 0
  show ?case by simp
next
  case (Suc n)
  show ?case
  proof (cases "attempt_fails platform options (host i)")
    case True
    then show ?thesis using Suc.IH [of "Suc i"] by (simp add: self_fail_step)
  next
    case False
    then obtain c evs where "tryAuthenticate platform options (host i) = (Inr c, evs)"
      by (rule attempt_succeeds)
    then show ?thesis by (simp add: self_success_step)
  qed
qed

lemma self_all_fail:
  "(\<forall>j<n. attempt_fails platform options (host (i + j))) \<Longrightarrow>
     self n platform options host i = (Pending, failed_attempts n platform options host i)"
proof (induction n arbitrary: i)
  case 0
  show ?case by simp
next
  case (Suc n)
  from Suc.prems have first: "attempt_fails platform options (host i)" by force
  have "\<forall>j<n. attempt_fails platform options (host (Suc i + j))"
    using Suc.prems by (metis Suc_less_eq add_Suc_shift)
  from Suc.IH [OF this] first show ?case by (simp add: self_fail_step)
qed

lemma self_first_success:
  "k < n \<Longrightarrow> (\<forall>j<k. attempt_fails platform options (host (i + j))) \<Longrightarrow>
     tryAuthenticate platform options (host (i + k)) = (Inr c, evs) \<Longrightarrow>
     self n platform options host i = (Fulfilled c, failed_attempts k platform options host i @ evs)"
proof (induction k arbitrary: i n)
  case 0
  then obtain m where "n = Suc m" by (cases n) auto
  with 0 show ?case by (simp add: self_success_step)
next
  case (Suc k)
  from Suc.prems(1) obtain m where n: "n = Suc m" and km: "k < m" by (cases n) auto
  from Suc.prems(2) have first: "attempt_fails platform options (host i)" by force
  have rest: "\<forall>j<k. attempt_fails platform options (host (Suc i + j))"
    using Suc.prems(2) by (metis Suc_less_eq add_Suc_shift)
  have "tryAuthenticate platform options (host (Suc i + k)) = (Inr c, evs)"
    using Suc.prems(3) by simp
  from Suc.IH [OF km rest this] first show ?case
    by (simp add: n self_fail_step)
qed

lemma self_timeouts:
  "\<forall>ev\<in>set (snd (self n platform options host i)).
     is_timeout ev \<longrightarrow> ev = SetTimeout (interval options)"
proof (induction n arbitrary: i)
  case 0
  show ?case by simp
next
  case (Suc n)
  have one: "\<forall>ev\<in>set (snd (tryAuthenticate platform options (host i))). \<not> is_timeout ev"
    using tryAuthenticate_events [of platform options "host i"] by auto
  show ?case
  proof (cases "attempt_fails platform options (host i)")
    case True
    then show ?thesis using Suc.IH [of "Suc i"] one by (auto simp: self_fail_step)
  next
    case False
    then obtain c evs where ok: "tryAuthenticate platform options (host i) = (Inr c, evs)"
      by (rule attempt_succeeds)
    with one show ?thesis by (auto simp: self_success_step)
  qed
qed

lemma failed_attempts_add:
  "failed_attempts (k + m) platform options host i =
     failed_attempts k platform options host i @ failed_attempts m platform options host (i + k)"
  by (induction k arbitrary: i) simp_all

lemma attempts_append: "attempts (xs @ ys) = attempts xs + attempts ys"
  by (simp add: attempts_def)

lemma attempts_failed_attempts: "attempts (failed_attempts k platform options host i) = k"
proof (induction k arbitrary: i)
  case 0
  show ?case by (simp add: attempts_def)
next
  case (Suc k)
  have "attempts (SetTimeout (interval options) # failed_attempts k platform options host (Suc i)) = k"
    using Suc.IH [of "Suc i"] by (simp add: attempts_def)
  then show ?case
    by (simp add: attempts_append attempts_tryAuthenticate del: append.simps)
qed


lemma authenticate_await:
  "platform \<in> set supported \<Longrightarrow> opt awaitConnection options = Some True \<Longrightarrow>
     authenticate n platform options host = self n platform options host 0"
  by (simp add: authenticate_def)

lemma authenticate_immediate:
  "platform \<in> set supported \<Longrightarrow> opt awaitConnection options \<noteq> Some True \<Longrightarrow>
     authenticate n platform options host =
       (case tryAuthenticate platform options (host 0) of
          (Inr result, evs) \<Rightarrow> (Fulfilled result, evs)
        | (Inl err, evs) \<Rightarrow> (Rejected err, evs))"
  by (simp add: authenticate_def)

lemma interval_default: "opt pollInterval options = None \<Longrightarrow> interval options = 2500"
  by (simp add: interval_def DEFAULT_POLL_INTERVAL_def)

lemma env_absent_fails: "attempt_fails ''linux'' (Some await_options) env_absent"
  by (simp add: attempt_fails_def tryAuthenticate_def env_absent_def)

lemma env_client_succeeds:
  "tryAuthenticate ''linux'' (Some await_options) env_client =
     (Inr (client_credentials None), [Exec (command ''linux'')])"
  by (simp add: attempt_eval env_client_def listing_def client_credentials_def
      await_options_def no_options_def)

lemma env_absent_events:
  "snd (tryAuthenticate ''linux'' (Some await_options) env_absent) = [Exec (command ''linux'')]"
  by (simp add: tryAuthenticate_def env_absent_def)

lemma events_after_abandon_failed:
  assumes "platform \<in> set supported" and "opt awaitConnection options = Some True"
    and "k \<le> n" and "\<forall>j<n. attempt_fails platform options (host j)"
  shows "events_after_abandon k n platform options host =
           failed_attempts (n - k) platform options host k"
proof -
  from assms(3,4) have fk: "\<forall>j<k. attempt_fails platform options (host (0 + j))" by simp
  from assms(4) have fn: "\<forall>j<n. attempt_fails platform options (host (0 + j))" by simp
  have k: "snd (authenticate k platform options host) = failed_attempts k platform options host 0"
    using self_all_fail [OF fk] by (simp add: authenticate_await [OF assms(1,2)])
  have n: "snd (authenticate n platform options host) = failed_attempts n platform options host 0"
    using self_all_fail [OF fn] by (simp add: authenticate_await [OF assms(1,2)])
  have "failed_attempts n platform options host 0 =
          failed_attempts k platform options host 0 @ failed_attempts (n - k) platform options host k"
    using failed_attempts_add [of k "n - k" platform options host 0] assms(3) by simp
  then show ?thesis by (simp add: events_after_abandon_def k n)
qed

lemma tryAuthenticate_pem_unreadable:
  assumes "opt AuthenticationOptions.certificate options = None \<or>
           opt AuthenticationOptions.certificate options = Some []"
    and "opt unsafe options = Some False" and "readFile e = None"
  shows "fst (tryAuthenticate platform options e) = Inl ClientNotFoundError"
proof -
  have "certificate_value options e = (Inl (), [ReadFile])"
    using assms by (simp add: certificate_value_no_override)
  then show ?thesis
    by (simp add: tryAuthenticate_def split: option.splits)
qed

lemma str_match_skip:
  "no_match_before re pre s \<Longrightarrow> str_match (pre @ s) re = str_match s re"
  by (induction pre) simp_all

lemma takeWhile_digit_post:
  "post = [] \<or> \<not> digit (hd post) \<Longrightarrow> takeWhile digit post = []"
  by (cases post) auto

lemma listing_port: "str_match (listing @ post) portRegex = Some ''56789''"
  by (simp add: listing_def regex_eval)

lemma listing_password: "str_match (listing @ post) passwordRegex = Some ''abc-123''"
  by (simp add: listing_def regex_eval)

lemma listing_pid:
  "takeWhile digit post = [] \<Longrightarrow> str_match (listing @ post) pidRegex = Some ''4321''"
  by (simp add: listing_def regex_eval)

subsection \<open>C1: the bundled certificate cannot be read\<close>

text \<open>
  Claim C1. When the bundled certificate is needed (no override, \<^verbatim>\<open>unsafe\<close> explicitly
  \<^verbatim>\<open>false\<close>) and reading it fails, the attempt should fail with an error of its own, not
  the error of a client that was not found, and that error should reach the caller
  without a retry, in await mode too. The code does otherwise. Here the client is
  listed at every attempt and only \<^verbatim>\<open>riotgames.pem\<close> cannot be read: the attempt throws
  \<open>ClientNotFoundError\<close>, which the file documents as "the league client could not be
  found"; immediate mode rejects with it; await mode, documented as "Poll until a client
  is found", swallows it and sets the next timer, so the call stays pending while the
  file is unreadable and is fulfilled by a later attempt once the file can be read.
\<close>

theorem unreadable_certificate_run:
  "exec env_no_pem (command ''linux'') = Some listing \<and>
   str_match listing portRegex = Some ''56789'' \<and>
   str_match listing passwordRegex = Some ''abc-123'' \<and>
   str_match listing pidRegex = Some ''4321'' \<and>
   readFile env_no_pem = None \<and>
   opt AuthenticationOptions.certificate (Some safe_await_options) = None \<and>
   opt unsafe (Some safe_await_options) = Some False \<and>
   tryAuthenticate ''linux'' (Some safe_await_options) env_no_pem =
     (Inl ClientNotFoundError, [Exec (command ''linux''), ReadFile]) \<and>
   authenticate 1 ''linux'' (Some safe_options) host_no_pem =
     (Rejected ClientNotFoundError, [Exec (command ''linux''), ReadFile]) \<and>
   authenticate 2 ''linux'' (Some safe_await_options) host_no_pem =
     (Pending,
      [Exec (command ''linux''), ReadFile, SetTimeout 2500,
       Exec (command ''linux''), ReadFile, SetTimeout 2500]) \<and>
   authenticate 2 ''linux'' (Some safe_await_options) host_pem_later =
     (Fulfilled (client_credentials (Some pem_text)),
      [Exec (command ''linux''), ReadFile, SetTimeout 2500,
       Exec (command ''linux''), ReadFile])"
proof -
  have p: "''linux'' \<in> set supported" by (simp add: supported_def)
  have aw: "opt awaitConnection (Some safe_await_options) = Some True"
    by (simp add: opt_def safe_await_options_def)
  have i: "interval (Some safe_await_options) = 2500"
    by (simp add: interval_default opt_def safe_await_options_def no_options_def)
  have listed: "exec env_no_pem (command ''linux'') = Some listing"
    "str_match listing portRegex = Some ''56789''"
    "str_match listing passwordRegex = Some ''abc-123''"
    "str_match listing pidRegex = Some ''4321''"
    "readFile env_no_pem = None"
    by (simp_all add: env_no_pem_def listing_def regex_eval)
  have opts: "opt AuthenticationOptions.certificate (Some safe_await_options) = None"
    "opt unsafe (Some safe_await_options) = Some False"
    by (simp_all add: opt_def safe_await_options_def no_options_def)
  have unreadable: "tryAuthenticate ''linux'' (Some safe_await_options) env_no_pem =
                 (Inl ClientNotFoundError, [Exec (command ''linux''), ReadFile])"
    by (simp add: attempt_eval env_no_pem_def listing_def safe_await_options_def no_options_def)
  have readable: "tryAuthenticate ''linux'' (Some safe_await_options) env_client =
                 (Inr (client_credentials (Some pem_text)), [Exec (command ''linux''), ReadFile])"
    by (simp add: attempt_eval env_client_def listing_def safe_await_options_def no_options_def
        client_credentials_def)
  have fails: "attempt_fails ''linux'' (Some safe_await_options) env_no_pem"
    by (simp add: attempt_fails_def unreadable)
  have immediate: "authenticate 1 ''linux'' (Some safe_options) host_no_pem =
                     (Rejected ClientNotFoundError, [Exec (command ''linux''), ReadFile])"
    by (simp add: authenticate_eval host_no_pem_def env_no_pem_def listing_def safe_options_def
        no_options_def)
  have "self (Suc (Suc 0)) ''linux'' (Some safe_await_options) host_no_pem 0 =
     (Pending,
      [Exec (command ''linux''), ReadFile, SetTimeout 2500,
       Exec (command ''linux''), ReadFile, SetTimeout 2500])"
    using fails by (simp add: self_fail_step host_no_pem_def unreadable i)
  then have stuck: "authenticate 2 ''linux'' (Some safe_await_options) host_no_pem =
     (Pending,
      [Exec (command ''linux''), ReadFile, SetTimeout 2500,
       Exec (command ''linux''), ReadFile, SetTimeout 2500])"
    by (simp add: authenticate_await [OF p aw] numeral_2_eq_2)
  have "self (Suc (Suc 0)) ''linux'' (Some safe_await_options) host_pem_later 0 =
     (Fulfilled (client_credentials (Some pem_text)),
      [Exec (command ''linux''), ReadFile, SetTimeout 2500,
       Exec (command ''linux''), ReadFile])"
    using fails readable
    by (simp add: self_fail_step self_success_step host_pem_later_def unreadable i)
  then have later: "authenticate 2 ''linux'' (Some safe_await_options) host_pem_later =
     (Fulfilled (client_credentials (Some pem_text)),
      [Exec (command ''linux''), ReadFile, SetTimeout 2500,
       Exec (command ''linux''), ReadFile])"
    by (simp add: authenticate_await [OF p aw] numeral_2_eq_2)
  from listed opts unreadable immediate stuck later show ?thesis by blast
qed

text \<open>
  The same holds on every supported platform, for every listing output and whatever the
  later attempts answer: an unreadable bundled certificate makes the attempt fail with
  \<open>ClientNotFoundError\<close>, immediate mode rejects with it, and await mode sets a timer and
  goes on with the next attempt.
\<close>

lemma certificate_load_failure:
  assumes "platform \<in> set supported"
    and "opt AuthenticationOptions.certificate options = None \<or>
         opt AuthenticationOptions.certificate options = Some []"
    and "opt unsafe options = Some False"
    and "readFile (host 0) = None"
  shows "fst (tryAuthenticate platform options (host 0)) = Inl ClientNotFoundError \<and>
         (opt awaitConnection options \<noteq> Some True \<longrightarrow>
            fst (authenticate n platform options host) = Rejected ClientNotFoundError) \<and>
         (opt awaitConnection options = Some True \<longrightarrow>
            authenticate (Suc n) platform options host =
              (fst (self n platform options host 1),
               snd (tryAuthenticate platform options (host 0)) @
               SetTimeout (interval options) # snd (self n platform options host 1)))"
proof -
  note failed = tryAuthenticate_pem_unreadable [OF assms(2,3,4), of platform]
  then have fails: "attempt_fails platform options (host 0)"
    by (simp add: attempt_fails_def)
  have immediate: "fst (authenticate n platform options host) = Rejected ClientNotFoundError"
    if "opt awaitConnection options \<noteq> Some True"
  proof -
    obtain r evs where r: "tryAuthenticate platform options (host 0) = (r, evs)"
      by (cases "tryAuthenticate platform options (host 0)")
    with failed have "r = Inl ClientNotFoundError" by simp
    with r show ?thesis by (simp add: authenticate_immediate [OF assms(1) that])
  qed
  have await: "authenticate (Suc n) platform options host =
              (fst (self n platform options host 1),
               snd (tryAuthenticate platform options (host 0)) @
               SetTimeout (interval options) # snd (self n platform options host 1))"
    if "opt awaitConnection options = Some True"
    using fails by (simp add: self_fail_step authenticate_await [OF assms(1) that])
  from failed immediate await show ?thesis by blast
qed

lemma certificate_load_failure_example:
  "''linux'' \<in> set supported \<and>
   opt AuthenticationOptions.certificate (Some safe_options) = None \<and>
   opt unsafe (Some safe_options) = Some False \<and>
   readFile (host_pem_later 0) = None \<and>
   fst (tryAuthenticate ''linux'' (Some safe_options) (host_pem_later 0)) = Inl ClientNotFoundError \<and>
   opt awaitConnection (Some safe_options) \<noteq> Some True \<and>
   fst (authenticate 1 ''linux'' (Some safe_options) host_pem_later) = Rejected ClientNotFoundError \<and>
   opt awaitConnection (Some safe_await_options) = Some True \<and>
   authenticate 2 ''linux'' (Some safe_await_options) host_pem_later =
     (Fulfilled (client_credentials (Some pem_text)),
      [Exec (command ''linux''), ReadFile, SetTimeout 2500,
       Exec (command ''linux''), ReadFile])"
proof -
  have p: "''linux'' \<in> set supported" by (simp add: supported_def)
  have c: "opt AuthenticationOptions.certificate (Some safe_options) = None"
    by (simp add: opt_def safe_options_def no_options_def)
  have u: "opt unsafe (Some safe_options) = Some False"
    by (simp add: opt_def safe_options_def)
  have r: "readFile (host_pem_later 0) = None"
    by (simp add: host_pem_later_def env_no_pem_def)
  have a: "opt awaitConnection (Some safe_options) \<noteq> Some True"
    by (simp add: opt_def safe_options_def no_options_def)
  have c': "opt AuthenticationOptions.certificate (Some safe_options) = None \<or>
            opt AuthenticationOptions.certificate (Some safe_options) = Some []"
    using c by simp
  note immediate = certificate_load_failure [where host = host_pem_later and n = 1, OF p c' u r]
  have i1: "fst (tryAuthenticate ''linux'' (Some safe_options) (host_pem_later 0)) =
              Inl ClientNotFoundError"
    using immediate by blast
  have i2: "fst (authenticate 1 ''linux'' (Some safe_options) host_pem_later) =
              Rejected ClientNotFoundError"
    using immediate a by blast
  have cw: "opt AuthenticationOptions.certificate (Some safe_await_options) = None \<or>
            opt AuthenticationOptions.certificate (Some safe_await_options) = Some []"
    by (simp add: opt_def safe_await_options_def no_options_def)
  have uw: "opt unsafe (Some safe_await_options) = Some False"
    by (simp add: opt_def safe_await_options_def)
  have aw: "opt awaitConnection (Some safe_await_options) = Some True"
    by (simp add: opt_def safe_await_options_def)
  have iw: "interval (Some safe_await_options) = 2500"
    by (simp add: interval_default opt_def safe_await_options_def no_options_def)
  have first: "snd (tryAuthenticate ''linux'' (Some safe_await_options) (host_pem_later 0)) =
                 [Exec (command ''linux''), ReadFile]"
    by (simp add: attempt_eval host_pem_later_def env_no_pem_def listing_def
        safe_await_options_def no_options_def)
  have second: "tryAuthenticate ''linux'' (Some safe_await_options) (host_pem_later 1) =
                 (Inr (client_credentials (Some pem_text)), [Exec (command ''linux''), ReadFile])"
    by (simp add: attempt_eval host_pem_later_def env_client_def listing_def
        safe_await_options_def no_options_def client_credentials_def)
  have loop: "self 1 ''linux'' (Some safe_await_options) host_pem_later 1 =
                (Fulfilled (client_credentials (Some pem_text)),
                 [Exec (command ''linux''), ReadFile])"
    using second self_success_step [where n = 0 and host = host_pem_later and i = 1]
    by simp
  have two: "Suc 1 = 2" by simp
  from certificate_load_failure [where host = host_pem_later and n = 1, OF p cw uw r] aw
  have "authenticate 2 ''linux'' (Some safe_await_options) host_pem_later =
     (Fulfilled (client_credentials (Some pem_text)),
      [Exec (command ''linux''), ReadFile, SetTimeout 2500,
       Exec (command ''linux''), ReadFile])"
    unfolding two loop first iw by simp
  with p c u r i1 a i2 aw show ?thesis by blast
qed

subsection \<open>C2: the polling loop\<close>

text \<open>
  Claim C2. In await mode on a supported platform, whatever the attempts answer, a
  failed attempt never surfaces an error: the promise is never rejected; it is fulfilled
  with the credentials of the first attempt that succeeds, and it stays pending as long
  as every attempt has failed, for any number of attempts. Each failed attempt is
  followed by one \<^verbatim>\<open>setTimeout\<close> of the same delay, \<^verbatim>\<open>pollInterval\<close>, 2500 when it is not
  given, and then by the next attempt.
\<close>

theorem await_mode_polls_until_success:
  assumes "platform \<in> set supported" and "opt awaitConnection options = Some True"
  shows "(\<forall>err. fst (authenticate n platform options host) \<noteq> Rejected err) \<and>
         ((\<forall>j<n. attempt_fails platform options (host j)) \<longrightarrow>
            authenticate n platform options host =
              (Pending, failed_attempts n platform options host 0)) \<and>
         (\<forall>k c evs. k < n \<and> (\<forall>j<k. attempt_fails platform options (host j)) \<and>
              tryAuthenticate platform options (host k) = (Inr c, evs) \<longrightarrow>
            authenticate n platform options host =
              (Fulfilled c, failed_attempts k platform options host 0 @ evs)) \<and>
         (\<forall>ev\<in>set (snd (authenticate n platform options host)).
            is_timeout ev \<longrightarrow> ev = SetTimeout (interval options)) \<and>
         interval options = (case opt pollInterval options of None \<Rightarrow> 2500 | Some ms \<Rightarrow> ms)"
proof -
  note loop = authenticate_await [OF assms]
  have never: "\<forall>err. fst (authenticate n platform options host) \<noteq> Rejected err"
    by (simp add: loop self_not_Rejected)
  have pending: "authenticate n platform options host =
                   (Pending, failed_attempts n platform options host 0)"
    if "\<forall>j<n. attempt_fails platform options (host j)"
    using that self_all_fail [of n platform options host 0] by (simp add: loop)
  have resolved: "authenticate n platform options host =
                    (Fulfilled c, failed_attempts k platform options host 0 @ evs)"
    if "k < n \<and> (\<forall>j<k. attempt_fails platform options (host j)) \<and>
        tryAuthenticate platform options (host k) = (Inr c, evs)" for k c evs
    using that self_first_success [of k n platform options host 0 c evs] by (simp add: loop)
  have fixed: "\<forall>ev\<in>set (snd (authenticate n platform options host)).
                    is_timeout ev \<longrightarrow> ev = SetTimeout (interval options)"
    using self_timeouts [of n platform options host 0] by (simp add: loop)
  have dflt: "interval options = (case opt pollInterval options of None \<Rightarrow> 2500 | Some ms \<Rightarrow> ms)"
    unfolding interval_def DEFAULT_POLL_INTERVAL_def by (rule refl)
  from never pending resolved fixed dflt show ?thesis by blast
qed

theorem await_mode_polls_until_success_witness:
  "''linux'' \<in> set supported \<and> opt awaitConnection (Some await_options) = Some True \<and>
   authenticate 3 ''linux'' (Some await_options) host_third =
     (Fulfilled (client_credentials None),
      [Exec (command ''linux''), SetTimeout 2500,
       Exec (command ''linux''), SetTimeout 2500,
       Exec (command ''linux'')]) \<and>
   authenticate 2 ''linux'' (Some await_options) host_absent =
     (Pending,
      [Exec (command ''linux''), SetTimeout 2500,
       Exec (command ''linux''), SetTimeout 2500])"
proof -
  have p: "''linux'' \<in> set supported" by (simp add: supported_def)
  have a: "opt awaitConnection (Some await_options) = Some True"
    by (simp add: opt_def await_options_def)
  have i: "interval (Some await_options) = 2500"
    by (simp add: interval_default opt_def await_options_def no_options_def)
  have two: "failed_attempts 2 ''linux'' (Some await_options) host_third 0 =
      [Exec (command ''linux''), SetTimeout 2500, Exec (command ''linux''), SetTimeout 2500]"
    by (simp add: numeral_2_eq_2 host_third_def env_absent_events i)
  have two': "failed_attempts 2 ''linux'' (Some await_options) host_absent 0 =
      [Exec (command ''linux''), SetTimeout 2500, Exec (command ''linux''), SetTimeout 2500]"
    by (simp add: numeral_2_eq_2 host_absent_def env_absent_events i)
  have fails: "\<forall>j<2. attempt_fails ''linux'' (Some await_options) (host_third j)"
    by (simp add: host_third_def env_absent_fails)
  have fails': "\<forall>j<2. attempt_fails ''linux'' (Some await_options) (host_absent j)"
    by (simp add: host_absent_def env_absent_fails)
  have third: "tryAuthenticate ''linux'' (Some await_options) (host_third 2) =
      (Inr (client_credentials None), [Exec (command ''linux'')])"
    by (simp add: host_third_def env_client_succeeds)
  have "authenticate 3 ''linux'' (Some await_options) host_third =
     (Fulfilled (client_credentials None),
      failed_attempts 2 ''linux'' (Some await_options) host_third 0 @ [Exec (command ''linux'')])"
    using await_mode_polls_until_success [OF p a, of 3 host_third] fails third by simp
  moreover have "authenticate 2 ''linux'' (Some await_options) host_absent =
     (Pending, failed_attempts 2 ''linux'' (Some await_options) host_absent 0)"
    using await_mode_polls_until_success [OF p a, of 2 host_absent] fails' by simp
  ultimately show ?thesis using p a two two' by simp
qed

subsection \<open>C3: an unsupported platform\<close>

text \<open>
  Claim C3. Whatever the options (immediate or await mode), on a platform other than
  \<^verbatim>\<open>win32\<close>, \<^verbatim>\<open>linux\<close> and \<^verbatim>\<open>darwin\<close> the call is rejected with \<open>InvalidPlatformError\<close>
  before any effect: no listing command is executed and no timer is set. The test is
  made once, before the loop: on a supported platform the call is never rejected with
  this error, and the loop \<open>self\<close> itself never rejects with it, whatever the platform.
\<close>

theorem unsupported_platform_fails_first:
  "(platform \<notin> set supported \<longrightarrow>
      authenticate n platform options host = (Rejected InvalidPlatformError, [])) \<and>
   (platform \<in> set supported \<longrightarrow>
      fst (authenticate n platform options host) \<noteq> Rejected InvalidPlatformError) \<and>
   fst (self n platform options host i) \<noteq> Rejected InvalidPlatformError"
proof (intro conjI impI)
  assume "platform \<notin> set supported"
  then show "authenticate n platform options host = (Rejected InvalidPlatformError, [])"
    by (simp add: authenticate_def)
next
  assume p: "platform \<in> set supported"
  show "fst (authenticate n platform options host) \<noteq> Rejected InvalidPlatformError"
  proof (cases "opt awaitConnection options = Some True")
    case True
    then show ?thesis by (simp add: authenticate_await [OF p] self_not_Rejected)
  next
    case False
    obtain r evs where r: "tryAuthenticate platform options (host 0) = (r, evs)"
      by (cases "tryAuthenticate platform options (host 0)")
    show ?thesis
    proof (cases r)
      case (Inl err)
      with r have "fst (tryAuthenticate platform options (host 0)) = Inl err" by simp
      then have "err = ClientNotFoundError" by (rule tryAuthenticate_error)
      with r Inl show ?thesis by (simp add: authenticate_immediate [OF p False])
    next
      case (Inr c)
      with r show ?thesis by (simp add: authenticate_immediate [OF p False])
    qed
  qed
next
  show "fst (self n platform options host i) \<noteq> Rejected InvalidPlatformError"
    by (rule self_not_Rejected)
qed

theorem unsupported_platform_fails_first_witness:
  "''freebsd'' \<notin> set supported \<and>
   authenticate 3 ''freebsd'' (Some await_options) host_client = (Rejected InvalidPlatformError, []) \<and>
   authenticate 3 ''freebsd'' None host_client = (Rejected InvalidPlatformError, []) \<and>
   ''darwin'' \<in> set supported \<and>
   fst (authenticate 3 ''darwin'' (Some await_options) host_absent) \<noteq> Rejected InvalidPlatformError"
proof -
  have u: "''freebsd'' \<notin> set supported" by (simp add: supported_def)
  have p: "''darwin'' \<in> set supported" by (simp add: supported_def)
  from unsupported_platform_fails_first [where platform = "''freebsd''" and n = 3
      and options = "Some await_options" and host = host_client]
    unsupported_platform_fails_first [where platform = "''freebsd''" and n = 3
      and options = None and host = host_client]
    unsupported_platform_fails_first [where platform = "''darwin''" and n = 3
      and options = "Some await_options" and host = host_absent]
    u p
  show ?thesis by blast
qed

subsection \<open>C4: extraction is all or nothing\<close>

text \<open>
  Claim C4. For every process-listing output, one attempt returns a \<open>Credentials\<close> record
  only if all three expressions match (the port after \<^verbatim>\<open>--app-port=\<close>, the token after
  \<^verbatim>\<open>--remoting-auth-token=\<close>, the process id after \<^verbatim>\<open>--app-pid=\<close>), and the record then
  holds all three values; if one of the three does not match, the attempt fails with
  \<open>ClientNotFoundError\<close> and returns no record at all.
\<close>

theorem attempt_all_or_nothing:
  "(fst (tryAuthenticate platform options e) = Inr c \<longrightarrow>
      (\<exists>out p t q.
         exec e (command platform) = Some out \<and>
         str_match out portRegex = Some p \<and>
         str_match out passwordRegex = Some t \<and>
         str_match out pidRegex = Some q \<and>
         port c = Number p \<and> password c = t \<and> pid c = Number q)) \<and>
   (exec e (command platform) = Some out' \<and>
      (str_match out' portRegex = None \<or> str_match out' passwordRegex = None
         \<or> str_match out' pidRegex = None) \<longrightarrow>
      tryAuthenticate platform options e = (Inl ClientNotFoundError, [Exec (command platform)]))"
proof (intro conjI impI)
  assume "fst (tryAuthenticate platform options e) = Inr c"
  from tryAuthenticate_Inr [OF this]
  show "\<exists>out p t q.
         exec e (command platform) = Some out \<and>
         str_match out portRegex = Some p \<and>
         str_match out passwordRegex = Some t \<and>
         str_match out pidRegex = Some q \<and>
         port c = Number p \<and> password c = t \<and> pid c = Number q"
    by auto
next
  assume "exec e (command platform) = Some out' \<and>
      (str_match out' portRegex = None \<or> str_match out' passwordRegex = None
         \<or> str_match out' pidRegex = None)"
  then show "tryAuthenticate platform options e = (Inl ClientNotFoundError, [Exec (command platform)])"
    using tryAuthenticate_no_match by blast
qed

theorem attempt_all_or_nothing_witness:
  "fst (tryAuthenticate ''linux'' None env_client) = Inr (client_credentials None) \<and>
   str_match listing portRegex \<noteq> None \<and>
   str_match listing passwordRegex \<noteq> None \<and>
   str_match listing pidRegex \<noteq> None \<and>
   exec env_no_pid (command ''linux'') = Some listing_no_pid \<and>
   str_match listing_no_pid pidRegex = None \<and>
   tryAuthenticate ''linux'' None env_no_pid = (Inl ClientNotFoundError, [Exec (command ''linux'')])"
proof -
  have ok: "fst (tryAuthenticate ''linux'' None env_client) = Inr (client_credentials None)"
    by (simp add: attempt_eval env_client_def listing_def client_credentials_def)
  have out: "exec env_client (command ''linux'') = Some listing"
    by (simp add: env_client_def)
  have matches: "str_match listing portRegex \<noteq> None \<and> str_match listing passwordRegex \<noteq> None
      \<and> str_match listing pidRegex \<noteq> None"
    using attempt_all_or_nothing [of "''linux''" None env_client "client_credentials None"] ok out
    by auto
  have ex: "exec env_no_pid (command ''linux'') = Some listing_no_pid"
    by (simp add: env_no_pid_def)
  have nopid: "str_match listing_no_pid pidRegex = None"
    by (simp add: regex_eval listing_no_pid_def)
  have "tryAuthenticate ''linux'' None env_no_pid = (Inl ClientNotFoundError, [Exec (command ''linux'')])"
    using attempt_all_or_nothing [of "''linux''" None env_no_pid _ listing_no_pid] ex nopid
    by blast
  with ok matches ex nopid show ?thesis by blast
qed


subsection \<open>C5: the certificate of a result\<close>

text \<open>
  Claim C5 says that, with \<^verbatim>\<open>unsafe\<close> unset and no override, the certificate of a result
  is the content of the bundled file, and that an override string is returned whatever
  it is. Neither holds: \<^verbatim>\<open>unsafe\<close> unset counts as \<^verbatim>\<open>true\<close> (line 106), so no
  certificate is attached, and an empty override is falsy (line 113), so the bundled
  file is used in its place when \<^verbatim>\<open>unsafe\<close> is \<^verbatim>\<open>false\<close>.
\<close>

theorem unset_unsafe_counterexample:
  "opt unsafe (Some no_options) = None \<and>
   opt AuthenticationOptions.certificate (Some no_options) = None \<and>
   readFile env_client = Some pem_text \<and>
   fst (tryAuthenticate ''linux'' (Some no_options) env_client) = Inr (client_credentials None) \<and>
   Credentials.certificate (client_credentials None) \<noteq> Some pem_text \<and>
   opt AuthenticationOptions.certificate (Some empty_override_options) = Some [] \<and>
   fst (tryAuthenticate ''linux'' (Some empty_override_options) env_client)
     = Inr (client_credentials (Some pem_text)) \<and>
   Credentials.certificate (client_credentials (Some pem_text)) \<noteq> Some []"
  by (simp add: attempt_eval env_client_def listing_def client_credentials_def no_options_def
      empty_override_options_def pem_text_def)

text \<open>
  Claim C5, amended. The certificate of a successful attempt is: the override, when a
  non-empty override is given, whatever \<^verbatim>\<open>unsafe\<close> is; absent, when there is no override
  (or an empty one) and \<^verbatim>\<open>unsafe\<close> is unset or \<^verbatim>\<open>true\<close>, even if the bundled file exists;
  the content of the bundled file, when there is no override (or an empty one) and
  \<^verbatim>\<open>unsafe\<close> is explicitly \<^verbatim>\<open>false\<close>.
\<close>

theorem certificate_of_result:
  assumes "fst (tryAuthenticate platform options e) = Inr c"
  shows "(\<forall>s. opt AuthenticationOptions.certificate options = Some s \<and> s \<noteq> [] \<longrightarrow>
            Credentials.certificate c = Some s) \<and>
         ((opt AuthenticationOptions.certificate options = None \<or>
           opt AuthenticationOptions.certificate options = Some []) \<and>
          (opt unsafe options = None \<or> opt unsafe options = Some True) \<longrightarrow>
            Credentials.certificate c = None) \<and>
         ((opt AuthenticationOptions.certificate options = None \<or>
           opt AuthenticationOptions.certificate options = Some []) \<and>
          opt unsafe options = Some False \<longrightarrow>
            readFile e \<noteq> None \<and> Credentials.certificate c = readFile e)"
proof -
  note cert = tryAuthenticate_certificate [OF assms]
  have override: "Credentials.certificate c = Some s"
    if "opt AuthenticationOptions.certificate options = Some s \<and> s \<noteq> []" for s
  proof -
    from that obtain x xs where "s = x # xs" by (cases s) auto
    with that cert show ?thesis by (simp add: certificate_value_override)
  qed
  have unsafe: "Credentials.certificate c = None"
    if "(opt AuthenticationOptions.certificate options = None \<or>
         opt AuthenticationOptions.certificate options = Some []) \<and>
        (opt unsafe options = None \<or> opt unsafe options = Some True)"
    using that cert by (auto simp: certificate_value_no_override)
  have bundled: "readFile e \<noteq> None \<and> Credentials.certificate c = readFile e"
    if "(opt AuthenticationOptions.certificate options = None \<or>
         opt AuthenticationOptions.certificate options = Some []) \<and>
        opt unsafe options = Some False"
  proof (cases "readFile e")
    case None
    with that cert show ?thesis by (simp add: certificate_value_no_override)
  next
    case (Some pem)
    with that have "certificate_value options e = (Inr (Some pem), [ReadFile])"
      by (simp add: certificate_value_no_override)
    with cert have "Credentials.certificate c = Some pem" by simp
    with Some show ?thesis by simp
  qed
  from override unsafe bundled show ?thesis by blast
qed

theorem certificate_of_result_witness:
  "fst (tryAuthenticate ''linux'' (Some (safe_options\<lparr>AuthenticationOptions.certificate := Some ''own''\<rparr>)) env_client)
     = Inr (client_credentials (Some ''own'')) \<and>
   fst (tryAuthenticate ''linux'' (Some no_options) env_client) = Inr (client_credentials None) \<and>
   fst (tryAuthenticate ''linux'' (Some safe_options) env_client) = Inr (client_credentials (Some pem_text)) \<and>
   Credentials.certificate (client_credentials (Some ''own'')) = Some ''own'' \<and>
   Credentials.certificate (client_credentials None) = None \<and>
   readFile env_client = Some pem_text \<and>
   Credentials.certificate (client_credentials (Some pem_text)) = Some pem_text"
proof -
  let ?own = "Some (safe_options\<lparr>AuthenticationOptions.certificate := Some ''own''\<rparr>)"
  have a: "fst (tryAuthenticate ''linux'' ?own env_client) = Inr (client_credentials (Some ''own''))"
    by (simp add: attempt_eval env_client_def listing_def client_credentials_def
        safe_options_def no_options_def)
  have b: "fst (tryAuthenticate ''linux'' (Some no_options) env_client) = Inr (client_credentials None)"
    by (simp add: attempt_eval env_client_def listing_def client_credentials_def no_options_def)
  have c: "fst (tryAuthenticate ''linux'' (Some safe_options) env_client)
             = Inr (client_credentials (Some pem_text))"
    by (simp add: attempt_eval env_client_def listing_def client_credentials_def
        safe_options_def no_options_def)
  have a': "Credentials.certificate (client_credentials (Some ''own'')) = Some ''own''"
    using certificate_of_result [OF a] by (simp add: opt_def safe_options_def no_options_def)
  have b': "Credentials.certificate (client_credentials None) = None"
    using certificate_of_result [OF b] by (simp add: opt_def no_options_def)
  have c': "readFile env_client = Some pem_text \<and>
            Credentials.certificate (client_credentials (Some pem_text)) = Some pem_text"
    using certificate_of_result [OF c]
    by (simp add: opt_def safe_options_def no_options_def env_client_def)
  from a b c a' b' c' show ?thesis by blast
qed

subsection \<open>C6: immediate mode\<close>

text \<open>
  Claim C6. In immediate mode (\<^verbatim>\<open>awaitConnection\<close> false or unset) on a supported
  platform, the call makes exactly one attempt, the first, and the outcome of that
  attempt is the outcome of the call: fulfilled with its credentials, or rejected with
  its \<open>ClientNotFoundError\<close>. The listing command is executed once, no timer is set, and
  the promise is settled.
\<close>

theorem immediate_mode_one_attempt:
  assumes "platform \<in> set supported" and "opt awaitConnection options \<noteq> Some True"
  shows "authenticate n platform options host =
           (case tryAuthenticate platform options (host 0) of
              (Inr c, evs) \<Rightarrow> (Fulfilled c, evs)
            | (Inl err, evs) \<Rightarrow> (Rejected err, evs)) \<and>
         attempts (snd (authenticate n platform options host)) = 1 \<and>
         filter is_timeout (snd (authenticate n platform options host)) = [] \<and>
         fst (authenticate n platform options host) \<noteq> Pending \<and>
         (attempt_fails platform options (host 0) \<longrightarrow>
            fst (authenticate n platform options host) = Rejected ClientNotFoundError)"
proof -
  note once = authenticate_immediate [OF assms]
  obtain r evs where r: "tryAuthenticate platform options (host 0) = (r, evs)"
    by (cases "tryAuthenticate platform options (host 0)")
  have events: "snd (authenticate n platform options host) =
                  snd (tryAuthenticate platform options (host 0))"
    using r by (cases r) (simp_all add: once)
  have one: "attempts (snd (authenticate n platform options host)) = 1"
    by (simp add: events attempts_tryAuthenticate)
  have none: "filter is_timeout (snd (authenticate n platform options host)) = []"
    by (simp add: events no_timeout_tryAuthenticate)
  have settled: "fst (authenticate n platform options host) \<noteq> Pending"
    using r by (cases r) (simp_all add: once)
  have rejected: "fst (authenticate n platform options host) = Rejected ClientNotFoundError"
    if "attempt_fails platform options (host 0)"
    using that by (auto simp: attempt_fails_iff once)
  from once one none settled rejected show ?thesis by blast
qed

theorem immediate_mode_one_attempt_witness:
  "''linux'' \<in> set supported \<and> opt awaitConnection None \<noteq> Some True \<and>
   attempt_fails ''linux'' None (host_absent 0) \<and>
   authenticate 5 ''linux'' None host_absent =
     (Rejected ClientNotFoundError, [Exec (command ''linux'')]) \<and>
   attempts (snd (authenticate 5 ''linux'' None host_absent)) = 1"
proof -
  have p: "''linux'' \<in> set supported" by (simp add: supported_def)
  have a: "opt awaitConnection None \<noteq> Some True" by (simp add: opt_def)
  have t: "tryAuthenticate ''linux'' None (host_absent 0) =
             (Inl ClientNotFoundError, [Exec (command ''linux'')])"
    by (simp add: tryAuthenticate_def host_absent_def env_absent_def)
  then have f: "attempt_fails ''linux'' None (host_absent 0)"
    by (simp add: attempt_fails_def)
  note once = immediate_mode_one_attempt [where host = host_absent and n = 5, OF p a]
  from once have run: "authenticate 5 ''linux'' None host_absent =
      (Rejected ClientNotFoundError, [Exec (command ''linux'')])"
    by (simp add: t)
  from once have one: "attempts (snd (authenticate 5 ''linux'' None host_absent)) = 1"
    by blast
  from p a f run one show ?thesis by blast
qed

subsection \<open>C7: the listing of the specification\<close>

text \<open>
  Claim C7 says that an attempt extracts port 56789, password \<^verbatim>\<open>abc-123\<close> and process id
  4321 from any output that contains
  \<^verbatim>\<open>--app-port=56789 --remoting-auth-token=abc-123 --app-pid=4321\<close>. Each expression
  takes its leftmost match and its group is greedy: an earlier \<^verbatim>\<open>--app-port=1\<close> in the
  output gives port 1, a digit right after the text gives process id 43210, and with
  \<^verbatim>\<open>unsafe\<close> set to \<^verbatim>\<open>false\<close> and an unreadable bundled file the attempt fails.
\<close>

theorem earlier_match_counterexample:
  "exec env_two_clients (command ''linux'') = Some (''--app-port=1 '' @ listing) \<and>
   fst (tryAuthenticate ''linux'' None env_two_clients)
     = Inr ((client_credentials None)\<lparr>port := Finite 1\<rparr>) \<and>
   port ((client_credentials None)\<lparr>port := Finite 1\<rparr>) \<noteq> Finite 56789 \<and>
   exec env_longer_pid (command ''linux'') = Some (listing @ ''0'') \<and>
   fst (tryAuthenticate ''linux'' None env_longer_pid)
     = Inr ((client_credentials None)\<lparr>pid := Finite 43210\<rparr>) \<and>
   pid ((client_credentials None)\<lparr>pid := Finite 43210\<rparr>) \<noteq> Finite 4321 \<and>
   exec env_no_pem (command ''linux'') = Some listing \<and>
   fst (tryAuthenticate ''linux'' (Some safe_options) env_no_pem) = Inl ClientNotFoundError"
  by (simp add: attempt_eval env_two_clients_def listing_two_clients_def env_longer_pid_def
      listing_longer_pid_def env_no_pem_def listing_def client_credentials_def
      safe_options_def no_options_def)

text \<open>
  Claim C7, amended. For an output that contains the text, where no match of any of the
  three expressions starts before the text, where no digit follows the text, and where
  the certificate can be had (an override, unsafe mode, or a readable bundled file), the
  three expressions capture \<^verbatim>\<open>56789\<close>, \<^verbatim>\<open>abc-123\<close> and \<^verbatim>\<open>4321\<close>, and the attempt succeeds
  with port 56789, password \<^verbatim>\<open>abc-123\<close> and process id 4321, the two numbers read in
  base 10.
\<close>

theorem listing_extracted:
  assumes "exec e (command platform) = Some (pre @ listing @ post)"
    and "no_match_before portRegex pre (listing @ post)"
    and "no_match_before passwordRegex pre (listing @ post)"
    and "no_match_before pidRegex pre (listing @ post)"
    and "post = [] \<or> \<not> digit (hd post)"
    and "fst (certificate_value options e) = Inr cert"
  shows "str_match (pre @ listing @ post) portRegex = Some ''56789'' \<and>
         str_match (pre @ listing @ post) passwordRegex = Some ''abc-123'' \<and>
         str_match (pre @ listing @ post) pidRegex = Some ''4321'' \<and>
         fst (tryAuthenticate platform options e) =
           Inr \<lparr>port = Finite 56789, password = ''abc-123'', pid = Finite 4321,
                Credentials.certificate = cert\<rparr>"
proof -
  have port: "str_match (pre @ listing @ post) portRegex = Some ''56789''"
    using str_match_skip [OF assms(2)] by (simp add: listing_port)
  have password: "str_match (pre @ listing @ post) passwordRegex = Some ''abc-123''"
    using str_match_skip [OF assms(3)] by (simp add: listing_password)
  have pid: "str_match (pre @ listing @ post) pidRegex = Some ''4321''"
    using str_match_skip [OF assms(4)] takeWhile_digit_post [OF assms(5)]
    by (simp add: listing_pid)
  obtain evs where cert: "certificate_value options e = (Inr cert, evs)"
    using assms(6) by (cases "certificate_value options e") auto
  have numbers: "Number ''56789'' = Finite 56789" "Number ''4321'' = Finite 4321"
    by (simp_all add: Number_def decimal_def nearest_double_def)
  have "fst (tryAuthenticate platform options e) =
           Inr \<lparr>port = Finite 56789, password = ''abc-123'', pid = Finite 4321,
                Credentials.certificate = cert\<rparr>"
    using assms(1) port password pid cert numbers by (simp add: tryAuthenticate_def)
  with port password pid show ?thesis by blast
qed

theorem listing_extracted_witness:
  "exec env_command_line (command ''win32'') = Some (''LeagueClientUx '' @ listing @ '' --no-rads'') \<and>
   no_match_before portRegex ''LeagueClientUx '' (listing @ '' --no-rads'') \<and>
   no_match_before passwordRegex ''LeagueClientUx '' (listing @ '' --no-rads'') \<and>
   no_match_before pidRegex ''LeagueClientUx '' (listing @ '' --no-rads'') \<and>
   \<not> digit (hd '' --no-rads'') \<and>
   fst (certificate_value (Some safe_options) env_command_line) = Inr (Some pem_text) \<and>
   fst (tryAuthenticate ''win32'' (Some safe_options) env_command_line) =
     Inr \<lparr>port = Finite 56789, password = ''abc-123'', pid = Finite 4321,
          Credentials.certificate = Some pem_text\<rparr>"
proof -
  have out: "exec env_command_line (command ''win32'') =
               Some (''LeagueClientUx '' @ listing @ '' --no-rads'')"
    by (simp add: env_command_line_def)
  have a: "no_match_before portRegex ''LeagueClientUx '' (listing @ '' --no-rads'')"
    by (simp add: listing_def regex_eval)
  have b: "no_match_before passwordRegex ''LeagueClientUx '' (listing @ '' --no-rads'')"
    by (simp add: listing_def regex_eval)
  have c: "no_match_before pidRegex ''LeagueClientUx '' (listing @ '' --no-rads'')"
    by (simp add: listing_def regex_eval)
  have d: "\<not> digit (hd '' --no-rads'')" by (simp add: digit_def)
  then have d': "'' --no-rads'' = [] \<or> \<not> digit (hd '' --no-rads'')" by blast
  have f: "fst (certificate_value (Some safe_options) env_command_line) = Inr (Some pem_text)"
    by (simp add: certificate_value_def opt_def safe_options_def no_options_def
        env_command_line_def)
  from listing_extracted [OF out a b c d' f] out a b c d f show ?thesis by blast
qed

subsection \<open>C8: abandoning an await-mode call\<close>

text \<open>
  Claim C8 says that no attempt is scheduled or executed once the caller has abandoned
  an await-mode call. Nothing in \<^verbatim>\<open>authenticate\<close> can be cancelled (see
  \<open>events_after_abandon\<close>): with no client running, a call abandoned after its first
  attempt still executes the second attempt and schedules the third.
\<close>

theorem abandoned_call_counterexample:
  "events_after_abandon 1 2 ''linux'' (Some await_options) host_absent =
     [Exec (command ''linux''), SetTimeout 2500] \<and>
   attempts (events_after_abandon 1 2 ''linux'' (Some await_options) host_absent) = 1"
proof -
  have i: "interval (Some await_options) = 2500"
    by (simp add: interval_default opt_def await_options_def no_options_def)
  have p: "''linux'' \<in> set supported" by (simp add: supported_def)
  have aw: "opt awaitConnection (Some await_options) = Some True"
    by (simp add: opt_def await_options_def)
  note loop = authenticate_await [OF p aw]
  have a: "authenticate 1 ''linux'' (Some await_options) host_absent =
             (Pending, [Exec (command ''linux''), SetTimeout 2500])"
    using env_absent_fails env_absent_events
    by (simp add: loop self_fail_step host_absent_def i)
  have b: "authenticate 2 ''linux'' (Some await_options) host_absent =
             (Pending, [Exec (command ''linux''), SetTimeout 2500,
                        Exec (command ''linux''), SetTimeout 2500])"
    using env_absent_fails env_absent_events
    by (simp add: loop self_fail_step host_absent_def i numeral_2_eq_2)
  show ?thesis unfolding events_after_abandon_def a b by (simp add: attempts_def)
qed

text \<open>
  Claim C8, amended. An await-mode call cannot be cancelled, and abandoning it stops
  nothing: on a supported platform, as long as the attempts fail, every attempt made
  after the caller has abandoned the call is still executed and followed by a
  \<^verbatim>\<open>setTimeout\<close> of the poll interval; between the \<open>k\<close>-th and the \<open>n\<close>-th failed attempt
  the loop executes \<open>n - k\<close> attempts. Only a successful attempt ends the loop.
\<close>

theorem abandoned_call_keeps_polling:
  assumes "platform \<in> set supported" and "opt awaitConnection options = Some True"
    and "k \<le> n" and "\<forall>j<n. attempt_fails platform options (host j)"
  shows "events_after_abandon k n platform options host =
           failed_attempts (n - k) platform options host k \<and>
         attempts (events_after_abandon k n platform options host) = n - k"
  using events_after_abandon_failed [OF assms]
  by (simp add: attempts_failed_attempts)

theorem abandoned_call_keeps_polling_witness:
  "''linux'' \<in> set supported \<and> opt awaitConnection (Some await_options) = Some True \<and>
   attempts (events_after_abandon 1 3 ''linux'' (Some await_options) host_absent) = 2"
proof -
  have p: "''linux'' \<in> set supported" by (simp add: supported_def)
  have a: "opt awaitConnection (Some await_options) = Some True"
    by (simp add: opt_def await_options_def)
  have f: "\<forall>j<3. attempt_fails ''linux'' (Some await_options) (host_absent j)"
    by (simp add: host_absent_def env_absent_fails)
  have le: "(1::nat) \<le> 3" by simp
  from abandoned_call_keeps_polling [OF p a le f, THEN conjunct2] p a show ?thesis by simp
qed

subsection \<open>C9: the fields of a result\<close>

text \<open>
  Claim C9 says that the port and the process id of every result are positive integers.
  The expressions accept any run of digits and nothing checks the number read from it:
  the listing \<^verbatim>\<open>--app-port=0 --remoting-auth-token=a --app-pid=0\<close> gives port 0 and
  process id 0.
\<close>

theorem port_zero_counterexample:
  "fst (authenticate 1 ''linux'' None host_zero) = Fulfilled zero_credentials \<and>
   port zero_credentials = Finite 0 \<and> pid zero_credentials = Finite 0 \<and>
   \<not> positive_integer (port zero_credentials) \<and> \<not> positive_integer (pid zero_credentials)"
  by (simp add: authenticate_eval host_zero_def env_zero_def listing_zero_def zero_credentials_def
      positive_integer_def)

text \<open>
  Claim C9, amended. For every successful discovery there is an attempt whose listing
  output gave the three fields: the port and the process id are \<^verbatim>\<open>Number\<close> of the
  non-empty runs of digits matched after \<^verbatim>\<open>--app-port=\<close> and \<^verbatim>\<open>--app-pid=\<close>, and the
  password is the non-empty run of word characters and hyphens matched after
  \<^verbatim>\<open>--remoting-auth-token=\<close>. The two numbers are never negative and may be zero; each
  is the base-10 value of its run when that value is below \<open>2 ^ 53\<close>, a double near it
  beyond, and \<^verbatim>\<open>Infinity\<close> when the value is \<open>2 ^ 1024\<close> or more.
\<close>

theorem credentials_fields:
  assumes "fst (authenticate n platform options host) = Fulfilled c"
  shows "\<exists>j out p t q.
           exec (host j) (command platform) = Some out \<and>
           str_match out portRegex = Some p \<and>
           str_match out passwordRegex = Some t \<and>
           str_match out pidRegex = Some q \<and>
           p \<noteq> [] \<and> (\<forall>d\<in>set p. digit d) \<and> q \<noteq> [] \<and> (\<forall>d\<in>set q. digit d) \<and>
           port c = Number p \<and> pid c = Number q \<and>
           not_negative (port c) \<and> not_negative (pid c) \<and>
           (decimal p < 2 ^ 53 \<longrightarrow> port c = Finite (int (decimal p))) \<and>
           (decimal q < 2 ^ 53 \<longrightarrow> pid c = Finite (int (decimal q))) \<and>
           (2 ^ 1024 \<le> decimal p \<longrightarrow> port c = Infinity) \<and>
           (2 ^ 1024 \<le> decimal q \<longrightarrow> pid c = Infinity) \<and>
           password c = t \<and> t \<noteq> [] \<and> (\<forall>ch\<in>set t. word_or_hyphen ch)"
proof -
  from authenticate_Fulfilled [OF assms] obtain j where
    "fst (tryAuthenticate platform options (host j)) = Inr c" by blast
  from tryAuthenticate_Inr [OF this] obtain out p t q where
    out: "exec (host j) (command platform) = Some out" and
    p: "str_match out portRegex = Some p" and
    t: "str_match out passwordRegex = Some t" and
    q: "str_match out pidRegex = Some q" and
    c: "port c = Number p" "password c = t" "pid c = Number q"
    by auto
  from str_match_Some [OF p] have p': "p \<noteq> []" "\<forall>d\<in>set p. digit d"
    by (simp_all add: portRegex_def)
  from str_match_Some [OF q] have q': "q \<noteq> []" "\<forall>d\<in>set q. digit d"
    by (simp_all add: pidRegex_def)
  from str_match_Some [OF t] have t': "t \<noteq> []" "\<forall>ch\<in>set t. word_or_hyphen ch"
    by (simp_all add: passwordRegex_def)
  have sign: "not_negative (port c)" "not_negative (pid c)"
    using c by (simp_all add: Number_def nearest_double_not_negative)
  have exact: "decimal p < 2 ^ 53 \<longrightarrow> port c = Finite (int (decimal p))"
    "decimal q < 2 ^ 53 \<longrightarrow> pid c = Finite (int (decimal q))"
    using c by (simp_all add: Number_def nearest_double_exact)
  have overflow: "2 ^ 1024 \<le> decimal p \<longrightarrow> port c = Infinity"
    "2 ^ 1024 \<le> decimal q \<longrightarrow> pid c = Infinity"
    using c by (simp_all add: Number_def nearest_double_overflow)
  from out p t q p' q' t' c sign exact overflow show ?thesis by blast
qed

theorem credentials_fields_witness:
  "fst (authenticate 1 ''linux'' None host_client) = Fulfilled (client_credentials None) \<and>
   port (client_credentials None) = Finite 56789 \<and>
   pid (client_credentials None) = Finite 4321 \<and>
   not_negative (port (client_credentials None)) \<and>
   not_negative (pid (client_credentials None)) \<and>
   password (client_credentials None) \<noteq> []"
proof -
  have ok: "fst (authenticate 1 ''linux'' None host_client) = Fulfilled (client_credentials None)"
    by (simp add: authenticate_eval host_client_def env_client_def listing_def
        client_credentials_def)
  from credentials_fields [OF ok]
  have "not_negative (port (client_credentials None)) \<and>
        not_negative (pid (client_credentials None)) \<and>
        password (client_credentials None) \<noteq> []"
    by blast
  with ok show ?thesis by (simp add: client_credentials_def)
qed

subsection \<open>C10: an empty override\<close>

text \<open>
  Claim C10 says that, with the override \<^verbatim>\<open>""\<close>, the certificate of the result is never
  the empty string. It is the empty string when \<^verbatim>\<open>unsafe\<close> is \<^verbatim>\<open>false\<close> and the bundled
  file is itself empty: \<^verbatim>\<open>'' || (false ? undefined : '')\<close>.
\<close>

theorem empty_override_counterexample:
  "AuthenticationOptions.certificate empty_override_options = Some [] \<and>
   unsafe empty_override_options = Some False \<and>
   readFile env_empty_pem = Some [] \<and>
   fst (tryAuthenticate ''linux'' (Some empty_override_options) env_empty_pem)
     = Inr (client_credentials (Some [])) \<and>
   Credentials.certificate (client_credentials (Some [])) = Some []"
  by (simp add: attempt_eval env_empty_pem_def listing_def client_credentials_def no_options_def
      empty_override_options_def)

text \<open>
  Claim C10, amended. An empty override is treated as no override: the attempt does
  what it does without one, so the certificate of its result is absent when \<^verbatim>\<open>unsafe\<close>
  is \<^verbatim>\<open>true\<close> or unset and is the content of the bundled file when \<^verbatim>\<open>unsafe\<close> is
  explicitly \<^verbatim>\<open>false\<close>; it is the empty string only when \<^verbatim>\<open>unsafe\<close> is \<^verbatim>\<open>false\<close> and the
  bundled file is empty.
\<close>

theorem empty_override_is_no_override:
  assumes "AuthenticationOptions.certificate opts = Some []"
  shows "tryAuthenticate platform (Some opts) e =
           tryAuthenticate platform (Some (opts\<lparr>AuthenticationOptions.certificate := None\<rparr>)) e \<and>
         (\<forall>c. fst (tryAuthenticate platform (Some opts) e) = Inr c \<longrightarrow>
            Credentials.certificate c = (if unsafe opts = Some False then readFile e else None) \<and>
            (Credentials.certificate c = Some [] \<longrightarrow>
               unsafe opts = Some False \<and> readFile e = Some []))"
proof (intro conjI allI impI)
  show "tryAuthenticate platform (Some opts) e =
          tryAuthenticate platform (Some (opts\<lparr>AuthenticationOptions.certificate := None\<rparr>)) e"
    unfolding tryAuthenticate_def certificate_value_empty_override [OF assms] by (rule refl)
next
  fix c
  assume ok: "fst (tryAuthenticate platform (Some opts) e) = Inr c"
  have empty: "opt AuthenticationOptions.certificate (Some opts) = None \<or>
               opt AuthenticationOptions.certificate (Some opts) = Some []"
    using assms by (simp add: opt_def)
  note cert = tryAuthenticate_certificate [OF ok]
  show field: "Credentials.certificate c = (if unsafe opts = Some False then readFile e else None)"
  proof (cases "readFile e")
    case None
    with cert empty show ?thesis
      by (simp add: certificate_value_no_override opt_def split: if_splits)
  next
    case (Some pem)
    have "certificate_value (Some opts) e =
            (if unsafe opts = Some False then (Inr (Some pem), [ReadFile]) else (Inr None, []))"
      using empty Some by (simp add: certificate_value_no_override opt_def)
    with cert have "Credentials.certificate c = (if unsafe opts = Some False then Some pem else None)"
      by (simp split: if_splits)
    with Some show ?thesis by simp
  qed
  assume "Credentials.certificate c = Some []"
  with field show "unsafe opts = Some False" by (simp split: if_splits)
  assume "Credentials.certificate c = Some []"
  with field show "readFile e = Some []" by (simp split: if_splits)
qed

theorem empty_override_is_no_override_witness:
  "AuthenticationOptions.certificate empty_override_options = Some [] \<and>
   tryAuthenticate ''linux'' (Some empty_override_options) env_client =
     tryAuthenticate ''linux'' (Some safe_options) env_client \<and>
   fst (tryAuthenticate ''linux'' (Some empty_override_options) env_client)
     = Inr (client_credentials (Some pem_text)) \<and>
   Credentials.certificate (client_credentials (Some pem_text)) = readFile env_client \<and>
   fst (tryAuthenticate ''linux'' (Some empty_override_options) env_empty_pem)
     = Inr (client_credentials (Some [])) \<and>
   unsafe empty_override_options = Some False \<and> readFile env_empty_pem = Some []"
proof -
  have h: "AuthenticationOptions.certificate empty_override_options = Some []"
    by (simp add: empty_override_options_def)
  have same: "empty_override_options\<lparr>AuthenticationOptions.certificate := None\<rparr> = safe_options"
    by (simp add: empty_override_options_def safe_options_def no_options_def)
  have ok: "fst (tryAuthenticate ''linux'' (Some empty_override_options) env_client)
              = Inr (client_credentials (Some pem_text))"
    by (simp add: attempt_eval env_client_def listing_def client_credentials_def no_options_def
        empty_override_options_def)
  have ok': "fst (tryAuthenticate ''linux'' (Some empty_override_options) env_empty_pem)
              = Inr (client_credentials (Some []))"
    by (simp add: attempt_eval env_empty_pem_def listing_def client_credentials_def no_options_def
        empty_override_options_def)
  have u: "unsafe empty_override_options = Some False"
    by (simp add: empty_override_options_def)
  have empty: "Credentials.certificate (client_credentials (Some [])) = Some []"
    by (simp add: client_credentials_def)
  from empty_override_is_no_override [OF h, of "''linux''" env_client] same ok u
  have one: "tryAuthenticate ''linux'' (Some empty_override_options) env_client =
               tryAuthenticate ''linux'' (Some safe_options) env_client \<and>
             Credentials.certificate (client_credentials (Some pem_text)) = readFile env_client"
    by simp
  from empty_override_is_no_override [OF h, of "''linux''" env_empty_pem] ok' empty
  have two: "unsafe empty_override_options = Some False \<and> readFile env_empty_pem = Some []"
    by blast
  from h ok ok' one two show ?thesis by blast
qed

end
